theory Spec2Isabelle
  imports Main
begin

section \<open>Data model\<close>

text \<open>
  The free-slot scan lives in the \<open>calendar_find_free\<close> branch of the calendar tool
  server's request handler. It works on epoch milliseconds: every ISO-8601 string is turned
  into a number by \<open>new Date(s).getTime()\<close> before it is used, and a found slot is
  turned back into a string by \<open>toISOString()\<close>. A timestamp is an \<open>int\<close>, the
  number of milliseconds since the epoch; \<open>getTime()\<close> of a date gives an integer of
  magnitude at most \<open>8640000000000000\<close>. Strings that do not parse are outside the
  model.

  One entry of the free/busy answer, with the two values the loop reads from it under the
  names the loop gives them (\<open>bStart\<close>, \<open>bEnd\<close>).
\<close>

record busy_interval =
  bStart :: int
  bEnd :: int

text \<open>
  The JSON object of the answer: \<open>slotStart\<close> and \<open>slotEnd\<close> are both \<open>null\<close>
  (here \<open>None\<close>) when nothing was found; \<open>timeZone\<close> is handed through.
\<close>

record free_slot_result =
  slotStart :: "int option"
  slotEnd :: "int option"
  timeZone :: string

section \<open>Numbers and dates of the runtime\<close>

text \<open>
  A JavaScript number is an IEEE double. An integer of magnitude up to \<open>2^53\<close> is a
  double; a larger one is rounded to 53 significant bits, to the nearest double and to the
  even significand on a tie. \<open>ulp_shift a\<close> is the number of low bits that \<open>a\<close>
  loses; \<open>to_double x\<close> is the double that the exact integer result \<open>x\<close> of an
  addition, subtraction or multiplication of integer doubles becomes. Overflow to
  \<open>Infinity\<close> is not modelled: it needs a duration above \<open>10^303\<close> minutes, which
  fails every comparison of the scan just as its rounded finite value does.
\<close>

function ulp_shift :: "nat \<Rightarrow> nat" where
  "ulp_shift a = (if a < 9007199254740992 then 0 else Suc (ulp_shift (a div 2)))"
  by pat_completeness auto
termination
proof (relation "measure (\<lambda>a. a)")
  show "wf (measure (\<lambda>a::nat. a))" by simp
next
  fix a :: nat
  assume "\<not> a < 9007199254740992"
  then have "0 < a" by linarith
  then show "(a div 2, a) \<in> measure (\<lambda>a. a)" by simp
qed

declare ulp_shift.simps [simp del]

definition to_double :: "int \<Rightarrow> int" where
  "to_double x =
     (let a = nat \<bar>x\<bar>;
          e = ulp_shift a;
          q = a div 2 ^ e;
          r = a mod 2 ^ e;
          m = (if 2 * r > 2 ^ e \<or> (2 * r = 2 ^ e \<and> odd q) then q + 1 else q)
      in sgn x * int (m * 2 ^ e))"

text \<open>
  \<open>new Date(v).toISOString()\<close>: a time value of magnitude above
  \<open>8640000000000000\<close> makes an invalid date, and \<open>toISOString\<close> throws
  \<open>RangeError\<close> on it. \<open>ZodError\<close> is what the request schema throws.
\<close>

datatype error = ZodError | RangeError

definition toISOString :: "int \<Rightarrow> error + int" where
  "toISOString t = (if \<bar>t\<bar> > 8640000000000000 then Inl RangeError else Inr t)"

section \<open>The scan\<close>

text \<open>
  The \<open>for (const b of busy)\<close> loop ends in one of two ways: by the \<open>return\<close> in its
  body, or by running out of intervals. Both carry the cursor at that moment.
\<close>

datatype loop_exit = EarlyReturn int | Exhausted int

fun busy_loop_f64 :: "int \<Rightarrow> int \<Rightarrow> busy_interval list \<Rightarrow> loop_exit" where
  "busy_loop_f64 durMs cursor [] = Exhausted cursor"
| "busy_loop_f64 durMs cursor (b # busy) =
     (if to_double (bStart b - cursor) \<ge> durMs then EarlyReturn cursor
      else busy_loop_f64 durMs (max cursor (bEnd b)) busy)"

text \<open>
  The two conversions and the JSON object of a found slot; the conversions run in this
  order and either can throw.
\<close>

definition slot_json :: "int \<Rightarrow> string \<Rightarrow> int \<Rightarrow> error + free_slot_result" where
  "slot_json durMs tz cursor =
     (case toISOString cursor of
        Inl err \<Rightarrow> Inl err
      | Inr s \<Rightarrow>
          (case toISOString (to_double (cursor + durMs)) of
             Inl err \<Rightarrow> Inl err
           | Inr e \<Rightarrow> Inr \<lparr>slotStart = Some s, slotEnd = Some e, timeZone = tz\<rparr>))"

text \<open>
  The scan as a whole: \<open>cursor\<close> starts at \<open>timeMin\<close>, \<open>endWin\<close> is
  \<open>timeMax\<close>, \<open>durMs = durationMinutes * 60 * 1000\<close>; after the loop the rest of
  the window is tried.
\<close>

definition calendar_find_free_f64 ::
  "busy_interval list \<Rightarrow> int \<Rightarrow> int \<Rightarrow> int \<Rightarrow> string \<Rightarrow> error + free_slot_result" where
  "calendar_find_free_f64 busy timeMin timeMax durationMinutes tz =
     (let cursor = timeMin;
          endWin = timeMax;
          durMs = to_double (to_double (durationMinutes * 60) * 1000)
      in case busy_loop_f64 durMs cursor busy of
           EarlyReturn c \<Rightarrow> slot_json durMs tz c
         | Exhausted c \<Rightarrow>
             (if to_double (endWin - c) \<ge> durMs then slot_json durMs tz c
              else Inr \<lparr>slotStart = None, slotEnd = None, timeZone = tz\<rparr>))"





section \<open>The scan in exact arithmetic\<close>

text \<open>
  The same loop and the same scan with every difference and sum exact and no conversion
  of dates. \<open>exact_times\<close> says when the runtime's arithmetic is exact on an input:
  every timestamp is a valid time value and no two of them are more than \<open>2^53\<close>
  milliseconds apart. Under it, and for a duration of at most \<open>2^53\<close> milliseconds,
  the scan of the code returns what this one returns (lemma \<open>f64_scan_exact\<close>).
\<close>

fun busy_loop :: "int \<Rightarrow> int \<Rightarrow> busy_interval list \<Rightarrow> loop_exit" where
  "busy_loop durMs cursor [] = Exhausted cursor"
| "busy_loop durMs cursor (b # busy) =
     (if bStart b - cursor \<ge> durMs then EarlyReturn cursor
      else busy_loop durMs (max cursor (bEnd b)) busy)"

definition calendar_find_free ::
  "busy_interval list \<Rightarrow> int \<Rightarrow> int \<Rightarrow> int \<Rightarrow> string \<Rightarrow> free_slot_result" where
  "calendar_find_free busy timeMin timeMax durationMinutes tz =
     (let cursor = timeMin;
          endWin = timeMax;
          durMs = durationMinutes * 60 * 1000
      in case busy_loop durMs cursor busy of
           EarlyReturn c \<Rightarrow>
             \<lparr>slotStart = Some c, slotEnd = Some (c + durMs), timeZone = tz\<rparr>
         | Exhausted c \<Rightarrow>
             (if endWin - c \<ge> durMs
              then \<lparr>slotStart = Some c, slotEnd = Some (c + durMs), timeZone = tz\<rparr>
              else \<lparr>slotStart = None, slotEnd = None, timeZone = tz\<rparr>))"

definition exact_times :: "int \<Rightarrow> int \<Rightarrow> busy_interval list \<Rightarrow> bool" where
  "exact_times timeMin timeMax busy \<longleftrightarrow>
     (let T = timeMin # timeMax # map bStart busy @ map bEnd busy
      in (\<forall>t \<in> set T. \<bar>t\<bar> \<le> 8640000000000000)
         \<and> (\<forall>s \<in> set T. \<forall>t \<in> set T. \<bar>s - t\<bar> \<le> 9007199254740992))"


fun exit_cursor :: "loop_exit \<Rightarrow> int" where
  "exit_cursor (EarlyReturn c) = c"
| "exit_cursor (Exhausted c) = c"

section \<open>The scan as the specification words it\<close>

text \<open>
  The specification's \<open>findFreeSlot(busy, window, duration)\<close>, step by step as section 4.1
  lists it, with the duration already in the unit of the timestamps. \<open>None\<close> is
  "not found".
\<close>

record search_window =
  windowStart :: int
  windowEnd :: int

fun spec_pass :: "search_window \<Rightarrow> int \<Rightarrow> int \<Rightarrow> busy_interval list \<Rightarrow> (int \<times> int) option" where
  "spec_pass w duration cursor [] =
     (if windowEnd w - cursor \<ge> duration then Some (cursor, cursor + duration) else None)"
| "spec_pass w duration cursor (interval # rest) =
     (if bStart interval - cursor \<ge> duration then Some (cursor, cursor + duration)
      else spec_pass w duration (max cursor (bEnd interval)) rest)"

definition spec_findFreeSlot ::
  "busy_interval list \<Rightarrow> search_window \<Rightarrow> int \<Rightarrow> (int \<times> int) option" where
  "spec_findFreeSlot busy w duration = spec_pass w duration (windowStart w) busy"

definition spec_result :: "(int \<times> int) option \<Rightarrow> string \<Rightarrow> free_slot_result" where
  "spec_result r tz =
     (case r of
        Some (s, e) \<Rightarrow> \<lparr>slotStart = Some s, slotEnd = Some e, timeZone = tz\<rparr>
      | None \<Rightarrow> \<lparr>slotStart = None, slotEnd = None, timeZone = tz\<rparr>)"

section \<open>Helper facts\<close>

lemma find_free_unfold:
  "calendar_find_free busy timeMin timeMax durationMinutes tz =
     (case busy_loop (durationMinutes * 60 * 1000) timeMin busy of
        EarlyReturn c \<Rightarrow>
          \<lparr>slotStart = Some c, slotEnd = Some (c + durationMinutes * 60 * 1000),
           timeZone = tz\<rparr>
      | Exhausted c \<Rightarrow>
          (if timeMax - c \<ge> durationMinutes * 60 * 1000
           then \<lparr>slotStart = Some c, slotEnd = Some (c + durationMinutes * 60 * 1000),
                 timeZone = tz\<rparr>
           else \<lparr>slotStart = None, slotEnd = None, timeZone = tz\<rparr>))"
  by (simp only: calendar_find_free_def Let_def)

lemma found_start:
  assumes "slotStart (calendar_find_free busy timeMin timeMax durationMinutes tz) = Some s"
  shows "s = exit_cursor (busy_loop (durationMinutes * 60 * 1000) timeMin busy)"
  using assms by (simp add: find_free_unfold split: loop_exit.splits if_splits)

lemma found_end:
  assumes "slotStart (calendar_find_free busy timeMin timeMax durationMinutes tz) = Some s"
    and "slotEnd (calendar_find_free busy timeMin timeMax durationMinutes tz) = Some e"
  shows "e = s + durationMinutes * 60 * 1000"
  using assms by (simp add: find_free_unfold split: loop_exit.splits if_splits)

lemma busy_loop_spec_pass:
  "spec_pass w duration cursor busy =
     (case busy_loop duration cursor busy of
        EarlyReturn c \<Rightarrow> Some (c, c + duration)
      | Exhausted c \<Rightarrow>
          (if windowEnd w - c \<ge> duration then Some (c, c + duration) else None))"
  by (induction busy arbitrary: cursor) simp_all

lemma exit_cursor_ge: "cursor \<le> exit_cursor (busy_loop durMs cursor busy)"
proof (induction busy arbitrary: cursor)
  case Nil
  show ?case by simp
next
  case (Cons b busy)
  have "cursor \<le> max cursor (bEnd b)" by simp
  also have "\<dots> \<le> exit_cursor (busy_loop durMs (max cursor (bEnd b)) busy)"
    by (rule Cons.IH)
  finally show ?case by simp
qed

lemma exit_cursor_ge_ends:
  "b \<in> set busy \<Longrightarrow> busy_loop durMs cursor busy = Exhausted c \<Longrightarrow> bEnd b \<le> c"
proof (induction busy arbitrary: cursor)
  case Nil
  then show ?case by simp
next
  case (Cons a busy)
  from Cons.prems(2) have miss: "\<not> bStart a - cursor \<ge> durMs"
    and rest: "busy_loop durMs (max cursor (bEnd a)) busy = Exhausted c"
    by (simp_all split: if_splits)
  show ?case
  proof (cases "b = a")
    case True
    have "max cursor (bEnd a) \<le> exit_cursor (busy_loop durMs (max cursor (bEnd a)) busy)"
      by (rule exit_cursor_ge)
    with rest True show ?thesis by simp
  next
    case False
    with Cons.prems(1) have "b \<in> set busy" by simp
    then show ?thesis using rest by (rule Cons.IH)
  qed
qed





lemma exit_cursor_le_gap:
  assumes "cursor \<le> g" and "h - g \<ge> durMs"
    and "\<forall>b \<in> set busy. h \<le> bStart b \<or> bEnd b \<le> g"
  shows "exit_cursor (busy_loop durMs cursor busy) \<le> g"
  using assms
proof (induction busy arbitrary: cursor)
  case Nil
  then show ?case by simp
next
  case (Cons a busy)
  show ?case
  proof (cases "bStart a - cursor \<ge> durMs")
    case True
    with Cons.prems(1) show ?thesis by simp
  next
    case False
    from Cons.prems(3) have "h \<le> bStart a \<or> bEnd a \<le> g" by simp
    moreover have "\<not> h \<le> bStart a" using False Cons.prems(1,2) by linarith
    ultimately have "bEnd a \<le> g" by simp
    with Cons.prems(1) have "max cursor (bEnd a) \<le> g" by simp
    moreover from Cons.prems(3) have "\<forall>b \<in> set busy. h \<le> bStart b \<or> bEnd b \<le> g" by simp
    ultimately have "exit_cursor (busy_loop durMs (max cursor (bEnd a)) busy) \<le> g"
      using Cons.prems(2) by (intro Cons.IH)
    with False show ?thesis by simp
  qed
qed

lemma early_return_clear:
  assumes "sorted (map bStart busy)" and "busy_loop durMs cursor busy = EarlyReturn c"
    and "b \<in> set busy"
  shows "c + durMs \<le> bStart b \<or> bEnd b \<le> c"
  using assms
proof (induction busy arbitrary: cursor)
  case Nil
  then show ?case by simp
next
  case (Cons a busy)
  show ?case
  proof (cases "bStart a - cursor \<ge> durMs")
    case True
    with Cons.prems(2) have c: "c = cursor" by simp
    from Cons.prems(1,3) have "bStart a \<le> bStart b" by auto
    with True c show ?thesis by simp
  next
    case False
    with Cons.prems(2) have rest: "busy_loop durMs (max cursor (bEnd a)) busy = EarlyReturn c"
      by simp
    show ?thesis
    proof (cases "b = a")
      case True
      have "max cursor (bEnd a) \<le> exit_cursor (busy_loop durMs (max cursor (bEnd a)) busy)"
        by (rule exit_cursor_ge)
      with rest True show ?thesis by simp
    next
      case False
      with Cons.prems(3) have "b \<in> set busy" by simp
      moreover from Cons.prems(1) have "sorted (map bStart busy)" by simp
      ultimately show ?thesis using rest Cons.IH by blast
    qed
  qed
qed

lemma early_return_before_start:
  "busy_loop durMs cursor busy = EarlyReturn c \<Longrightarrow> \<exists>b \<in> set busy. c + durMs \<le> bStart b"
proof (induction busy arbitrary: cursor)
  case Nil
  then show ?case by simp
next
  case (Cons a busy)
  show ?case
  proof (cases "bStart a - cursor \<ge> durMs")
    case True
    with Cons.prems have "c = cursor" by simp
    with True show ?thesis by simp
  next
    case False
    with Cons.prems have "busy_loop durMs (max cursor (bEnd a)) busy = EarlyReturn c" by simp
    then have "\<exists>b \<in> set busy. c + durMs \<le> bStart b" by (rule Cons.IH)
    then show ?thesis by auto
  qed
qed

lemma slot_start_in_window:
  assumes "slotStart (calendar_find_free busy timeMin timeMax durationMinutes tz) = Some s"
  shows "timeMin \<le> s"
proof -
  have "s = exit_cursor (busy_loop (durationMinutes * 60 * 1000) timeMin busy)"
    using assms by (rule found_start)
  then show ?thesis by (simp add: exit_cursor_ge)
qed

lemma slot_end_in_window:
  assumes "\<forall>b \<in> set busy. bStart b \<le> timeMax"
    and "slotEnd (calendar_find_free busy timeMin timeMax durationMinutes tz) = Some e"
  shows "e \<le> timeMax"
proof (cases "busy_loop (durationMinutes * 60 * 1000) timeMin busy")
  case (EarlyReturn c)
  then obtain b where "b \<in> set busy" and "c + durationMinutes * 60 * 1000 \<le> bStart b"
    using early_return_before_start by blast
  moreover from EarlyReturn assms(2) have "e = c + durationMinutes * 60 * 1000"
    by (simp add: find_free_unfold)
  ultimately show ?thesis using assms(1) by fastforce
next
  case (Exhausted c)
  with assms(2) show ?thesis by (simp add: find_free_unfold split: if_splits)
qed

lemma no_slot_in_short_window:
  assumes "1 \<le> durationMinutes" and "timeMax - timeMin < durationMinutes * 60 * 1000"
    and "\<forall>b \<in> set busy. bStart b - timeMin < durationMinutes * 60 * 1000"
  shows "calendar_find_free busy timeMin timeMax durationMinutes tz
           = \<lparr>slotStart = None, slotEnd = None, timeZone = tz\<rparr>"
proof (cases "busy_loop (durationMinutes * 60 * 1000) timeMin busy")
  case (EarlyReturn c)
  then obtain b where b: "b \<in> set busy" "c + durationMinutes * 60 * 1000 \<le> bStart b"
    using early_return_before_start by blast
  have "timeMin \<le> exit_cursor (busy_loop (durationMinutes * 60 * 1000) timeMin busy)"
    by (rule exit_cursor_ge)
  with EarlyReturn have "timeMin \<le> c" by simp
  with b assms(3) show ?thesis by fastforce
next
  case (Exhausted c)
  have "timeMin \<le> exit_cursor (busy_loop (durationMinutes * 60 * 1000) timeMin busy)"
    by (rule exit_cursor_ge)
  with Exhausted have "timeMin \<le> c" by simp
  with Exhausted assms(2) show ?thesis by (simp add: find_free_unfold)
qed

lemma outside_keeps_cursor:
  assumes "0 < durMs" and "endWin - cursor \<ge> durMs"
    and "\<forall>b \<in> set busy. (bStart b \<le> bEnd b \<and> bEnd b \<le> cursor) \<or> endWin \<le> bStart b"
  shows "exit_cursor (busy_loop durMs cursor busy) = cursor"
  using assms(3)
proof (induction busy)
  case Nil
  show ?case by simp
next
  case (Cons a busy)
  from Cons.prems have rest: "exit_cursor (busy_loop durMs cursor busy) = cursor"
    by (intro Cons.IH) simp
  from Cons.prems
  have "(bStart a \<le> bEnd a \<and> bEnd a \<le> cursor) \<or> endWin \<le> bStart a" by simp
  then show ?case
  proof
    assume before: "bStart a \<le> bEnd a \<and> bEnd a \<le> cursor"
    with assms(1) have "\<not> bStart a - cursor \<ge> durMs" by linarith
    moreover from before have "max cursor (bEnd a) = cursor" by simp
    ultimately show ?thesis using rest by simp
  next
    assume "endWin \<le> bStart a"
    with assms(2) have "bStart a - cursor \<ge> durMs" by linarith
    then show ?thesis by simp
  qed
qed

lemma outside_busy_same_as_empty:
  assumes "1 \<le> durationMinutes"
    and "\<forall>b \<in> set busy. (bStart b \<le> bEnd b \<and> bEnd b \<le> timeMin) \<or> timeMax \<le> bStart b"
    and "timeMax - timeMin \<ge> durationMinutes * 60 * 1000
         \<or> (\<forall>b \<in> set busy. bStart b - timeMin < durationMinutes * 60 * 1000)"
  shows "calendar_find_free busy timeMin timeMax durationMinutes tz
           = calendar_find_free [] timeMin timeMax durationMinutes tz"
proof (cases "timeMax - timeMin \<ge> durationMinutes * 60 * 1000")
  case True
  from assms(1) have pos: "0 < durationMinutes * 60 * 1000" by simp
  have "exit_cursor (busy_loop (durationMinutes * 60 * 1000) timeMin busy) = timeMin"
    using pos True assms(2) by (rule outside_keeps_cursor)
  with True show ?thesis
    by (cases "busy_loop (durationMinutes * 60 * 1000) timeMin busy")
       (simp_all add: find_free_unfold)
next
  case False
  with assms(3) have far: "\<forall>b \<in> set busy. bStart b - timeMin < durationMinutes * 60 * 1000"
    by simp
  from False have short: "timeMax - timeMin < durationMinutes * 60 * 1000" by simp
  have "calendar_find_free busy timeMin timeMax durationMinutes tz
          = \<lparr>slotStart = None, slotEnd = None, timeZone = tz\<rparr>"
    using assms(1) short far by (rule no_slot_in_short_window)
  with False show ?thesis by (simp add: find_free_unfold)
qed

lemma exact_scan_is_specified_pass:
  "calendar_find_free busy (windowStart w) (windowEnd w) durationMinutes tz =
     spec_result (spec_findFreeSlot busy w (durationMinutes * 60 * 1000)) tz"
  by (simp add: find_free_unfold spec_findFreeSlot_def spec_result_def busy_loop_spec_pass
      split: loop_exit.split)

lemma exact_slot_clear_of_busy:
  assumes "sorted (map bStart busy)"
    and "slotStart (calendar_find_free busy timeMin timeMax durationMinutes tz) = Some s"
    and "slotEnd (calendar_find_free busy timeMin timeMax durationMinutes tz) = Some e"
    and "b \<in> set busy"
  shows "e \<le> bStart b \<or> bEnd b \<le> s"
proof -
  let ?d = "durationMinutes * 60 * 1000"
  have e: "e = s + ?d" using assms(2,3) by (rule found_end)
  show ?thesis
  proof (cases "busy_loop ?d timeMin busy")
    case (EarlyReturn c)
    with assms(2) have "s = c" by (simp add: find_free_unfold)
    moreover have "c + ?d \<le> bStart b \<or> bEnd b \<le> c"
      using assms(1) EarlyReturn assms(4) by (rule early_return_clear)
    ultimately show ?thesis using e by simp
  next
    case (Exhausted c)
    with assms(2) have "s = c" by (simp add: find_free_unfold split: if_splits)
    moreover have "bEnd b \<le> c" using assms(4) Exhausted by (rule exit_cursor_ge_ends)
    ultimately show ?thesis by simp
  qed
qed

lemma to_double_exact:
  assumes "\<bar>x\<bar> \<le> 9007199254740992"
  shows "to_double x = x"
proof (cases "\<bar>x\<bar> = 9007199254740992")
  case True
  then have a: "nat \<bar>x\<bar> = 9007199254740992" by simp
  have e: "ulp_shift 9007199254740992 = Suc 0"
    by (simp add: ulp_shift.simps)
  from True have "x = 9007199254740992 \<or> x = - 9007199254740992" by linarith
  then show ?thesis by (auto simp add: to_double_def a e)
next
  case False
  with assms have lt: "nat \<bar>x\<bar> < 9007199254740992" by linarith
  then have "ulp_shift (nat \<bar>x\<bar>) = 0" by (simp add: ulp_shift.simps)
  then have "to_double x = sgn x * int (nat \<bar>x\<bar>)" by (simp add: to_double_def)
  also have "\<dots> = x" by (simp add: sgn_if)
  finally show ?thesis .
qed

lemma shift_examples:
  "ulp_shift 9599999999999999 = Suc 0" "ulp_shift 17279999999999999 = Suc 0"
  by (simp_all add: ulp_shift.simps)

lemma shift_at_bounds:
  "ulp_shift 9600000000000000 = Suc 0" "ulp_shift 17280000000000000 = Suc 0"
  by (simp_all add: ulp_shift.simps)

lemma rounded_values:
  "to_double 9599999999999999 = 9600000000000000"
  "to_double 9600000000000000 = 9600000000000000"
  "to_double 17279999999999999 = 17280000000000000"
  "to_double 17280000000000000 = 17280000000000000"
  by (simp_all add: to_double_def shift_examples shift_at_bounds)

lemma exact_values:
  "to_double 9600000000000 = 9600000000000"
  "to_double 17280000000000 = 17280000000000"
  "to_double 4800000000000000 = 4800000000000000"
  "to_double 8640000000000001 = 8640000000000001"
  "to_double 0 = 0"
  by (simp_all add: to_double_exact)

lemma durMs_exact:
  assumes "1 \<le> durationMinutes" and "durationMinutes * 60000 \<le> 9007199254740992"
  shows "to_double (to_double (durationMinutes * 60) * 1000) = durationMinutes * 60 * 1000"
proof -
  from assms have "\<bar>durationMinutes * 60\<bar> \<le> 9007199254740992" by linarith
  then have "to_double (durationMinutes * 60) = durationMinutes * 60" by (rule to_double_exact)
  moreover from assms have "\<bar>durationMinutes * 60 * 1000\<bar> \<le> 9007199254740992" by linarith
  then have "to_double (durationMinutes * 60 * 1000) = durationMinutes * 60 * 1000"
    by (rule to_double_exact)
  ultimately show ?thesis by simp
qed

lemma loop_f64_exact:
  assumes "\<forall>s \<in> T. \<forall>t \<in> T. \<bar>s - t\<bar> \<le> 9007199254740992"
    and "cursor \<in> T" and "\<forall>b \<in> set busy. bStart b \<in> T \<and> bEnd b \<in> T"
  shows "busy_loop_f64 durMs cursor busy = busy_loop durMs cursor busy"
  using assms(2,3)
proof (induction busy arbitrary: cursor)
  case Nil
  show ?case by simp
next
  case (Cons b busy)
  from Cons.prems have "bStart b \<in> T" and "bEnd b \<in> T" by simp_all
  with assms(1) Cons.prems(1) have "\<bar>bStart b - cursor\<bar> \<le> 9007199254740992" by blast
  then have diff: "to_double (bStart b - cursor) = bStart b - cursor" by (rule to_double_exact)
  from Cons.prems(1) \<open>bEnd b \<in> T\<close> have "max cursor (bEnd b) \<in> T" by (simp add: max_def)
  moreover from Cons.prems(2) have "\<forall>b \<in> set busy. bStart b \<in> T \<and> bEnd b \<in> T" by simp
  ultimately have "busy_loop_f64 durMs (max cursor (bEnd b)) busy
      = busy_loop durMs (max cursor (bEnd b)) busy" by (rule Cons.IH)
  with diff show ?case by simp
qed

lemma exit_cursor_mem:
  "exit_cursor (busy_loop durMs cursor busy) \<in> insert cursor (bEnd ` set busy)"
proof (induction busy arbitrary: cursor)
  case Nil
  show ?case by simp
next
  case (Cons b busy)
  have "exit_cursor (busy_loop durMs (max cursor (bEnd b)) busy)
          \<in> insert (max cursor (bEnd b)) (bEnd ` set busy)" by (rule Cons.IH)
  then show ?case by (auto simp add: max_def)
qed

lemma slot_json_ok:
  assumes "\<bar>c\<bar> \<le> 8640000000000000" and "0 \<le> d" and "c + d \<le> 8640000000000000"
  shows "slot_json d tz c = Inr \<lparr>slotStart = Some c, slotEnd = Some (c + d), timeZone = tz\<rparr>"
proof -
  from assms have small: "\<bar>c + d\<bar> \<le> 8640000000000000" by linarith
  then have "\<bar>c + d\<bar> \<le> 9007199254740992" by linarith
  then have "to_double (c + d) = c + d" by (rule to_double_exact)
  with assms(1) small show ?thesis by (simp add: slot_json_def toISOString_def)
qed

lemma f64_scan_exact:
  assumes "exact_times timeMin timeMax busy"
    and "1 \<le> durationMinutes" and "durationMinutes * 60000 \<le> 9007199254740992"
  shows "calendar_find_free_f64 busy timeMin timeMax durationMinutes tz
           = Inr (calendar_find_free busy timeMin timeMax durationMinutes tz)"
proof -
  define T where "T = set (timeMin # timeMax # map bStart busy @ map bEnd busy)"
  define d where "d = durationMinutes * 60 * 1000"
  from assms(1) have valid: "\<forall>t \<in> T. \<bar>t\<bar> \<le> 8640000000000000"
    and close: "\<forall>s \<in> T. \<forall>t \<in> T. \<bar>s - t\<bar> \<le> 9007199254740992"
    by (simp_all add: exact_times_def T_def Let_def)
  have tmin: "timeMin \<in> T" and tmax: "timeMax \<in> T" by (simp_all add: T_def)
  have busyT: "\<forall>b \<in> set busy. bStart b \<in> T \<and> bEnd b \<in> T" by (simp add: T_def)
  have dur: "to_double (to_double (durationMinutes * 60) * 1000) = d"
    unfolding d_def using assms(2,3) by (rule durMs_exact)
  from assms(2) have dpos: "0 \<le> d" by (simp add: d_def)
  have loop: "busy_loop_f64 d timeMin busy = busy_loop d timeMin busy"
    using close tmin busyT by (rule loop_f64_exact)
  have "exit_cursor (busy_loop d timeMin busy) \<in> insert timeMin (bEnd ` set busy)"
    by (rule exit_cursor_mem)
  with busyT tmin have exitT: "exit_cursor (busy_loop d timeMin busy) \<in> T" by auto
  show ?thesis
  proof (cases "busy_loop d timeMin busy")
    case (EarlyReturn c)
    with exitT have cT: "c \<in> T" by simp
    with valid have cv: "\<bar>c\<bar> \<le> 8640000000000000" by blast
    from EarlyReturn obtain b where "b \<in> set busy" and "c + d \<le> bStart b"
      using early_return_before_start by blast
    moreover from this(1) busyT valid have "\<bar>bStart b\<bar> \<le> 8640000000000000" by blast
    ultimately have "c + d \<le> 8640000000000000" by linarith
    with cv dpos have "slot_json d tz c
        = Inr \<lparr>slotStart = Some c, slotEnd = Some (c + d), timeZone = tz\<rparr>"
      by (rule slot_json_ok)
    with EarlyReturn loop dur show ?thesis
      by (simp add: calendar_find_free_f64_def find_free_unfold d_def)
  next
    case (Exhausted c)
    with exitT have cT: "c \<in> T" by simp
    with valid have cv: "\<bar>c\<bar> \<le> 8640000000000000" by blast
    from close tmax cT have "\<bar>timeMax - c\<bar> \<le> 9007199254740992" by blast
    then have diff: "to_double (timeMax - c) = timeMax - c" by (rule to_double_exact)
    show ?thesis
    proof (cases "timeMax - c \<ge> d")
      case True
      from valid tmax have "\<bar>timeMax\<bar> \<le> 8640000000000000" by blast
      with True have "c + d \<le> 8640000000000000" by linarith
      with cv dpos have "slot_json d tz c
          = Inr \<lparr>slotStart = Some c, slotEnd = Some (c + d), timeZone = tz\<rparr>"
        by (rule slot_json_ok)
      with True Exhausted loop dur diff show ?thesis
        by (simp add: calendar_find_free_f64_def find_free_unfold d_def)
    next
      case False
      with Exhausted loop dur diff show ?thesis
        by (simp add: calendar_find_free_f64_def find_free_unfold d_def)
    qed
  qed
qed


text \<open>
  The inputs that the sections on the overlap example and on the window end evaluate in
  exact arithmetic, evaluated in the arithmetic of the runtime, and the first-fit bound
  for the scan of the code on inputs where that arithmetic is exact.
\<close>

lemma evaluations_in_doubles:
  "calendar_find_free_f64 [\<lparr>bStart = 5400000, bEnd = 7200000\<rparr>] 0 1800000 60 tz
     = Inr \<lparr>slotStart = Some 0, slotEnd = Some 3600000, timeZone = tz\<rparr>"
  "calendar_find_free_f64 [\<lparr>bStart = 3600000, bEnd = 5400000\<rparr>] 0 1200000 30 tz
     = Inr \<lparr>slotStart = Some 0, slotEnd = Some 1800000, timeZone = tz\<rparr>"
  "calendar_find_free_f64 [] 0 1200000 30 tz
     = Inr \<lparr>slotStart = None, slotEnd = None, timeZone = tz\<rparr>"
  "calendar_find_free_f64 [\<lparr>bStart = 7200000, bEnd = 9000000\<rparr>] 3600000 0 30 tz
     = Inr \<lparr>slotStart = Some 3600000, slotEnd = Some 5400000, timeZone = tz\<rparr>"
  "calendar_find_free_f64 [\<lparr>bStart = 1800000, bEnd = 3600000\<rparr>] 0 0 30 tz
     = Inr \<lparr>slotStart = Some 0, slotEnd = Some 1800000, timeZone = tz\<rparr>"
  "calendar_find_free_f64
     [\<lparr>bStart = 600000, bEnd = 1200000\<rparr>, \<lparr>bStart = 900000, bEnd = 1500000\<rparr>]
     0 1800000 5 tz
     = Inr \<lparr>slotStart = Some 0, slotEnd = Some 300000, timeZone = tz\<rparr>"
  by (simp_all add: f64_scan_exact exact_times_def find_free_unfold)

lemma first_fit_in_doubles:
  assumes "exact_times timeMin timeMax busy"
    and "1 \<le> durationMinutes" and "durationMinutes * 60000 \<le> 9007199254740992"
    and "calendar_find_free_f64 busy timeMin timeMax durationMinutes tz = Inr r"
    and "slotStart r = Some s"
    and "timeMin \<le> g" and "h - g \<ge> durationMinutes * 60 * 1000"
    and "\<forall>b \<in> set busy. h \<le> bStart b \<or> bEnd b \<le> g"
  shows "s \<le> g"
proof -
  have "calendar_find_free_f64 busy timeMin timeMax durationMinutes tz
          = Inr (calendar_find_free busy timeMin timeMax durationMinutes tz)"
    using assms(1-3) by (rule f64_scan_exact)
  with assms(4,5)
  have "slotStart (calendar_find_free busy timeMin timeMax durationMinutes tz) = Some s"
    by simp
  then have "s = exit_cursor (busy_loop (durationMinutes * 60 * 1000) timeMin busy)"
    by (rule found_start)
  also have "\<dots> \<le> g" using assms(6-8) by (rule exit_cursor_le_gap)
  finally show ?thesis .
qed

section \<open>The scan against its description\<close>

text \<open>
  C1, amended. When every timestamp is a valid time value, no two timestamps are more than
  \<open>2^53\<close> milliseconds apart and the duration is at least one minute and at most
  \<open>2^53\<close> milliseconds, the scan of the code is the single forward pass of the
  specification: the cursor starts at the window start; an interval whose start is at least
  the duration away from the cursor ends the pass with the slot at the cursor; any other
  interval moves the cursor to the larger of the cursor and the interval's end; after the
  last interval the rest of the window is taken if it is long enough, and the answer is
  "not found" otherwise.
\<close>

theorem scan_is_specified_pass_in_range:
  assumes "exact_times (windowStart w) (windowEnd w) busy"
    and "1 \<le> durationMinutes" and "durationMinutes * 60000 \<le> 9007199254740992"
  shows "calendar_find_free_f64 busy (windowStart w) (windowEnd w) durationMinutes tz =
           Inr (spec_result (spec_findFreeSlot busy w (durationMinutes * 60 * 1000)) tz)"
proof -
  have "calendar_find_free_f64 busy (windowStart w) (windowEnd w) durationMinutes tz
          = Inr (calendar_find_free busy (windowStart w) (windowEnd w) durationMinutes tz)"
    using assms by (rule f64_scan_exact)
  then show ?thesis by (simp add: exact_scan_is_specified_pass)
qed

theorem scan_is_specified_pass_in_range_witness:
  "exact_times 0 7200000 [\<lparr>bStart = 0, bEnd = 5400000\<rparr>]
   \<and> calendar_find_free_f64 [\<lparr>bStart = 0, bEnd = 5400000\<rparr>] 0 7200000 30 ''UTC''
       = Inr \<lparr>slotStart = Some 5400000, slotEnd = Some 7200000, timeZone = ''UTC''\<rparr>
   \<and> spec_findFreeSlot [\<lparr>bStart = 0, bEnd = 5400000\<rparr>]
         \<lparr>windowStart = 0, windowEnd = 7200000\<rparr> (30 * 60 * 1000) = Some (5400000, 7200000)"
proof -
  let ?busy = "[\<lparr>bStart = 0, bEnd = 5400000\<rparr>]"
  let ?w = "\<lparr>windowStart = 0, windowEnd = 7200000\<rparr>"
  have rng: "exact_times (windowStart ?w) (windowEnd ?w) ?busy"
    by (simp add: exact_times_def)
  have sp: "spec_findFreeSlot ?busy ?w (30 * 60 * 1000) = Some (5400000, 7200000)"
    by (simp add: spec_findFreeSlot_def)
  from scan_is_specified_pass_in_range [OF rng, of 30 "''UTC''"] sp rng
  show ?thesis by (simp add: spec_result_def)
qed

text \<open>
  The pass of C1 without the bound on the timestamps: window
  \<open>[-8639999999999999, 8640000000000000]\<close>, duration \<open>288000000000\<close> minutes, one
  busy interval at \<open>8640000000000000\<close>. The difference \<open>17279999999999999\<close> is
  one millisecond short of the duration and rounds up to it, so the code returns inside the
  loop and the conversion of the slot end throws, where the pass of the specification ends
  in "not found".
\<close>

theorem rounded_scan_counterexample:
  "calendar_find_free_f64 [\<lparr>bStart = 8640000000000000, bEnd = 8640000000000000\<rparr>]
       (- 8639999999999999) 8640000000000000 288000000000 ''UTC''
     = Inl RangeError
   \<and> spec_result
       (spec_findFreeSlot [\<lparr>bStart = 8640000000000000, bEnd = 8640000000000000\<rparr>]
          \<lparr>windowStart = - 8639999999999999, windowEnd = 8640000000000000\<rparr>
          (288000000000 * 60 * 1000)) ''UTC''
     = \<lparr>slotStart = None, slotEnd = None, timeZone = ''UTC''\<rparr>"
  by (simp add: calendar_find_free_f64_def slot_json_def toISOString_def
      spec_findFreeSlot_def spec_result_def rounded_values exact_values)

section \<open>The empty busy list\<close>

text \<open>
  C7, amended. For a window whose bounds are valid time values at most \<open>2^53\<close>
  milliseconds apart and a duration of at least one minute and at most \<open>2^53\<close>
  milliseconds, the answer on the empty busy list is the slot that starts at the window
  start when the window is at least as long as the duration, and "not found" otherwise.
\<close>

theorem empty_busy_result_in_range:
  assumes "exact_times timeMin timeMax []"
    and "1 \<le> durationMinutes" and "durationMinutes * 60000 \<le> 9007199254740992"
  shows "calendar_find_free_f64 [] timeMin timeMax durationMinutes tz =
     Inr (if timeMax - timeMin \<ge> durationMinutes * 60 * 1000
          then \<lparr>slotStart = Some timeMin,
                slotEnd = Some (timeMin + durationMinutes * 60 * 1000), timeZone = tz\<rparr>
          else \<lparr>slotStart = None, slotEnd = None, timeZone = tz\<rparr>)"
proof -
  have "calendar_find_free_f64 [] timeMin timeMax durationMinutes tz
          = Inr (calendar_find_free [] timeMin timeMax durationMinutes tz)"
    using assms by (rule f64_scan_exact)
  then show ?thesis by (simp add: find_free_unfold)
qed

theorem empty_busy_result_in_range_witness:
  "exact_times 0 7200000 []
   \<and> calendar_find_free_f64 [] 0 7200000 30 ''UTC''
       = Inr \<lparr>slotStart = Some 0, slotEnd = Some 1800000, timeZone = ''UTC''\<rparr>
   \<and> calendar_find_free_f64 [] 0 1200000 30 ''UTC''
       = Inr \<lparr>slotStart = None, slotEnd = None, timeZone = ''UTC''\<rparr>"
proof -
  have r1: "exact_times 0 7200000 []" and r2: "exact_times 0 1200000 []"
    by (simp_all add: exact_times_def)
  from empty_busy_result_in_range [OF r1, of 30 "''UTC''"]
    empty_busy_result_in_range [OF r2, of 30 "''UTC''"] r1
  show ?thesis by simp
qed

text \<open>
  C7 without the bound: the window \<open>[-4800000000000000, 4799999999999999]\<close> is one
  millisecond shorter than the duration of \<open>160000000000\<close> minutes; the difference
  rounds up to the duration and the code returns a slot, which ends one millisecond after
  the window end.
\<close>

theorem empty_busy_rounded_counterexample:
  "calendar_find_free_f64 [] (- 4800000000000000) 4799999999999999 160000000000 ''UTC''
     = Inr \<lparr>slotStart = Some (- 4800000000000000), slotEnd = Some 4800000000000000,
            timeZone = ''UTC''\<rparr>
   \<and> (4799999999999999 - (- 4800000000000000) :: int) < 160000000000 * 60 * 1000
   \<and> (4799999999999999 :: int) < 4800000000000000"
  by (simp add: calendar_find_free_f64_def slot_json_def toISOString_def
      rounded_values exact_values)

section \<open>First fit\<close>



section \<open>The slot and the busy intervals\<close>

text \<open>
  C10, amended. When every timestamp is a valid time value, no two timestamps are more
  than \<open>2^53\<close> milliseconds apart, the duration is at least one minute and at most
  \<open>2^53\<close> milliseconds, the busy list is ascending by start (its intervals may overlap
  one another) and a slot is returned, the slot overlaps no busy interval of the list: it
  ends by the interval's start or starts at or after the interval's end.
\<close>

theorem slot_clear_of_busy_in_range:
  assumes "exact_times timeMin timeMax busy"
    and "1 \<le> durationMinutes" and "durationMinutes * 60000 \<le> 9007199254740992"
    and "sorted (map bStart busy)"
    and "calendar_find_free_f64 busy timeMin timeMax durationMinutes tz = Inr r"
    and "slotStart r = Some s" and "slotEnd r = Some e"
    and "b \<in> set busy"
  shows "e \<le> bStart b \<or> bEnd b \<le> s"
proof -
  have "calendar_find_free_f64 busy timeMin timeMax durationMinutes tz
          = Inr (calendar_find_free busy timeMin timeMax durationMinutes tz)"
    using assms(1-3) by (rule f64_scan_exact)
  with assms(5) have r: "r = calendar_find_free busy timeMin timeMax durationMinutes tz"
    by simp
  from assms(6,7) have
    "slotStart (calendar_find_free busy timeMin timeMax durationMinutes tz) = Some s"
    "slotEnd (calendar_find_free busy timeMin timeMax durationMinutes tz) = Some e"
    by (simp_all add: r)
  with assms(4) show ?thesis using assms(8) by (rule exact_slot_clear_of_busy)
qed

theorem slot_clear_of_busy_in_range_witness:
  "exact_times 600000 1800000
     [\<lparr>bStart = 600000, bEnd = 1200000\<rparr>, \<lparr>bStart = 900000, bEnd = 1500000\<rparr>]
   \<and> sorted (map bStart [\<lparr>bStart = 600000, bEnd = 1200000\<rparr>, \<lparr>bStart = 900000, bEnd = 1500000\<rparr>])
   \<and> calendar_find_free_f64
        [\<lparr>bStart = 600000, bEnd = 1200000\<rparr>, \<lparr>bStart = 900000, bEnd = 1500000\<rparr>]
        600000 1800000 5 ''UTC''
       = Inr \<lparr>slotStart = Some 1500000, slotEnd = Some 1800000, timeZone = ''UTC''\<rparr>
   \<and> ((1800000::int) \<le> bStart \<lparr>bStart = 900000, bEnd = 1500000\<rparr>
        \<or> bEnd \<lparr>bStart = 900000, bEnd = 1500000\<rparr> \<le> (1500000::int))"
proof -
  let ?busy = "[\<lparr>bStart = 600000, bEnd = 1200000\<rparr>, \<lparr>bStart = 900000, bEnd = 1500000\<rparr>]"
  let ?r = "\<lparr>slotStart = Some 1500000, slotEnd = Some 1800000, timeZone = ''UTC''\<rparr>"
  have rng: "exact_times 600000 1800000 ?busy" by (simp add: exact_times_def)
  have srt: "sorted (map bStart ?busy)" by simp
  have "calendar_find_free_f64 ?busy 600000 1800000 5 ''UTC''
          = Inr (calendar_find_free ?busy 600000 1800000 5 ''UTC'')"
    using rng by (rule f64_scan_exact) simp_all
  then have res: "calendar_find_free_f64 ?busy 600000 1800000 5 ''UTC'' = Inr ?r"
    by (simp add: find_free_unfold)
  have mem: "\<lparr>bStart = 900000, bEnd = 1500000\<rparr> \<in> set ?busy" by simp
  have "(1800000::int) \<le> bStart \<lparr>bStart = 900000, bEnd = 1500000\<rparr>
        \<or> bEnd \<lparr>bStart = 900000, bEnd = 1500000\<rparr> \<le> (1500000::int)"
    using slot_clear_of_busy_in_range [OF rng _ _ srt res _ _ mem, of 1500000 1800000]
    by simp
  with rng srt res show ?thesis by simp
qed

text \<open>
  C10 without the bound: window \<open>[-4800000000000000, 4800000000000000]\<close>, duration
  \<open>160000000000\<close> minutes, one busy interval
  \<open>[4799999999999999, 4800000000000000]\<close>. The gap before the interval is one
  millisecond short and rounds up to the duration; the returned slot covers the interval.
\<close>

theorem slot_overlap_rounded_counterexample:
  "sorted (map bStart [\<lparr>bStart = 4799999999999999, bEnd = 4800000000000000\<rparr>])
   \<and> calendar_find_free_f64 [\<lparr>bStart = 4799999999999999, bEnd = 4800000000000000\<rparr>]
       (- 4800000000000000) 4800000000000000 160000000000 ''UTC''
     = Inr \<lparr>slotStart = Some (- 4800000000000000), slotEnd = Some 4800000000000000,
            timeZone = ''UTC''\<rparr>
   \<and> \<not> ((4800000000000000 :: int) \<le> bStart \<lparr>bStart = 4799999999999999, bEnd = 4800000000000000\<rparr>
        \<or> bEnd \<lparr>bStart = 4799999999999999, bEnd = 4800000000000000\<rparr> \<le> (- 4800000000000000 :: int))"
  by (simp add: calendar_find_free_f64_def slot_json_def toISOString_def
      rounded_values exact_values)

section \<open>Runs on the same input\<close>




section \<open>The scenarios of the specification\<close>


section \<open>The cursor\<close>



section \<open>The window end inside the loop\<close>

text \<open>
  The return inside the loop compares the cursor with the start of the current interval
  only; the window end is compared after the loop only. The three evaluations below are
  inputs on which that matters. The lemmas \<open>slot_start_in_window\<close>,
  \<open>slot_end_in_window\<close>, \<open>no_slot_in_short_window\<close> and
  \<open>outside_busy_same_as_empty\<close> above say what the scan keeps when no interval starts
  far enough behind the window end.
\<close>

text \<open>
  C3. Window \<open>[0, 30]\<close> minutes, duration \<open>60\<close>, one busy interval \<open>[90, 120]\<close>:
  the scan returns the slot \<open>[0, 60]\<close>, which ends after the window end.
\<close>

theorem slot_past_window_end:
  "calendar_find_free [\<lparr>bStart = 5400000, bEnd = 7200000\<rparr>] 0 1800000 60 tz
     = \<lparr>slotStart = Some 0, slotEnd = Some 3600000, timeZone = tz\<rparr>
   \<and> (1800000 :: int) < 3600000"
  by (simp add: find_free_unfold)

text \<open>
  C4. Window \<open>[0, 20]\<close> minutes, duration \<open>30\<close>: with the one busy interval
  \<open>[60, 90]\<close>, which lies wholly after the window, the scan returns the slot
  \<open>[0, 30]\<close>; with the empty busy list it returns "not found".
\<close>

theorem outside_busy_changes_result:
  "calendar_find_free [\<lparr>bStart = 3600000, bEnd = 5400000\<rparr>] 0 1200000 30 tz
     = \<lparr>slotStart = Some 0, slotEnd = Some 1800000, timeZone = tz\<rparr>
   \<and> calendar_find_free [] 0 1200000 30 tz
     = \<lparr>slotStart = None, slotEnd = None, timeZone = tz\<rparr>
   \<and> (1200000 :: int) < bStart \<lparr>bStart = 3600000, bEnd = 5400000\<rparr>"
  by (simp add: find_free_unfold)

text \<open>
  C5. Duration \<open>30\<close>: in the inverted window \<open>[60, 0]\<close> with the busy interval
  \<open>[120, 150]\<close> the scan returns the slot \<open>[60, 90]\<close>, and in the empty window
  \<open>[0, 0]\<close> with the busy interval \<open>[30, 60]\<close> it returns the slot \<open>[0, 30]\<close>.
\<close>

theorem slot_in_inverted_window:
  "calendar_find_free [\<lparr>bStart = 7200000, bEnd = 9000000\<rparr>] 3600000 0 30 tz
     = \<lparr>slotStart = Some 3600000, slotEnd = Some 5400000, timeZone = tz\<rparr>
   \<and> calendar_find_free [\<lparr>bStart = 1800000, bEnd = 3600000\<rparr>] 0 0 30 tz
     = \<lparr>slotStart = Some 0, slotEnd = Some 1800000, timeZone = tz\<rparr>"
  by (simp add: find_free_unfold)

end
